theory Spec2Isabelle
  imports Complex_Main "HOL-Library.Log_Nat"
begin

section \<open>The Hyperliquid tracker (app.py): data model\<close>

text \<open>
  The script keeps its data in pandas frames. A frame is modelled as the list of its rows,
  a row as a record of the columns the script reads. Numbers are the exact rationals the
  decimal strings of the ledger denote; a numeric cell is a \<open>rat option\<close>, where \<open>None\<close>
  is the missing value (NaN) that a coercion failure leaves behind. The infinities are
  outside this model, and so is the rounding of binary floating point, except where a
  property turns on it: the last section before the properties models it.

  A timestamp is the integer of milliseconds since the epoch the ledger sends; a calendar
  date is the number of whole days since the epoch (\<open>.dt.date\<close> truncates to the day).
\<close>

type_synonym num = "rat option"

record 'v raw_fill =
  raw_time :: int
  raw_coin :: string
  raw_dir :: string
  raw_px :: 'v
  raw_sz :: 'v
  raw_closedPnl :: 'v
  raw_fee :: 'v
  raw_startPosition :: 'v

record 'v raw_funding =
  raw_ftime :: int
  raw_fcoin :: string
  raw_usdc :: 'v

record fill =
  time :: int
  date :: int
  coin :: string
  dir :: string
  px :: num
  sz :: num
  closedPnl :: num
  fee :: num
  startPosition :: num

record funding =
  ftime :: int
  fdate :: int
  fcoin :: string
  usdc :: num

record daily =
  d_date :: int
  d_closedPnl :: rat
  d_fee :: rat
  d_usdc :: rat
  daily_net_pnl :: rat
  cumulative_pnl :: rat

record metrics =
  total_closed_pnl :: rat
  net_pnl :: rat
  win_rate :: rat
  total_trading_fees :: rat
  total_funding :: rat

section \<open>Backend functions\<close>

subsection \<open>fetch_hyperliquid_data\<close>

text \<open>
  The two \<open>requests.post\<close> calls are the environment of the function: each either raises
  (\<open>Transport_exception\<close>) or answers with a status code and a body, whose \<open>.json()\<close> is
  \<open>None\<close> when decoding raises. The function returns the pair of streams, \<open>None\<close> for
  Python's \<open>None\<close>, together with the message it sends to \<open>st.error\<close>, if any.
\<close>

datatype 'a response = Transport_exception | Response int "'a option"

datatype fetch_error = API_Error | Connection_Error

definition fetch_hyperliquid_data ::
  "'a response \<Rightarrow> 'b response \<Rightarrow> ('a option \<times> 'b option) \<times> fetch_error option" where
  "fetch_hyperliquid_data r_fills r_funding =
     (case r_fills of
        Transport_exception \<Rightarrow> ((None, None), Some Connection_Error)
      | Response fills_status fills_json \<Rightarrow>
         (case r_funding of
            Transport_exception \<Rightarrow> ((None, None), Some Connection_Error)
          | Response funding_status funding_json \<Rightarrow>
              if fills_status \<noteq> 200 \<or> funding_status \<noteq> 200
              then ((None, None), Some API_Error)
              else (case fills_json of
                      None \<Rightarrow> ((None, None), Some Connection_Error)
                    | Some fills_data \<Rightarrow>
                       (case funding_json of
                          None \<Rightarrow> ((None, None), Some Connection_Error)
                        | Some funding_data \<Rightarrow> ((Some fills_data, Some funding_data), None)))))"

subsection \<open>process_data\<close>

text \<open>
  \<open>pd.to_numeric(column, errors='coerce')\<close> is a library function; its action on one cell is
  the parameter \<open>to_numeric\<close>, which answers \<open>None\<close> where the cell does not parse.
  \<open>truthy\<close> is Python's truth value of a list or \<open>None\<close>.
\<close>

definition ms_per_day :: int where
  "ms_per_day = 86400000"

definition truthy :: "'a list option \<Rightarrow> bool" where
  "truthy x = (case x of None \<Rightarrow> False | Some xs \<Rightarrow> xs \<noteq> [])"

definition rows_of :: "'a list option \<Rightarrow> 'a list" where
  "rows_of x = (case x of None \<Rightarrow> [] | Some xs \<Rightarrow> xs)"

definition normalize_fill :: "('v \<Rightarrow> num) \<Rightarrow> 'v raw_fill \<Rightarrow> fill" where
  "normalize_fill to_numeric r =
     \<lparr> time = raw_time r,
       date = raw_time r div ms_per_day,
       coin = raw_coin r,
       dir = raw_dir r,
       px = to_numeric (raw_px r),
       sz = to_numeric (raw_sz r),
       closedPnl = to_numeric (raw_closedPnl r),
       fee = to_numeric (raw_fee r),
       startPosition = to_numeric (raw_startPosition r) \<rparr>"

definition normalize_funding :: "('v \<Rightarrow> num) \<Rightarrow> 'v raw_funding \<Rightarrow> funding" where
  "normalize_funding to_numeric r =
     \<lparr> ftime = raw_ftime r,
       fdate = raw_ftime r div ms_per_day,
       fcoin = raw_fcoin r,
       usdc = to_numeric (raw_usdc r) \<rparr>"

definition process_data ::
  "('v \<Rightarrow> num) \<Rightarrow> 'v raw_fill list option \<Rightarrow> 'v raw_funding list option
     \<Rightarrow> fill list \<times> funding list" where
  "process_data to_numeric fills funding =
     (if \<not> truthy fills then ([], [])
      else
        let df_fills = map (normalize_fill to_numeric) (rows_of fills);
            df_funding = (if truthy funding
                          then map (normalize_funding to_numeric) (rows_of funding)
                          else [])
        in (df_fills, df_funding))"

section \<open>The calculations of the page\<close>

text \<open>
  The calculations read columns, so they are modelled for frames that have their columns:
  the list of rows, empty for a frame with columns and no row. The column-less
  \<open>pd.DataFrame()\<close> that \<open>process_data\<close> returns for missing fills never reaches them: the
  page tests the raw fills first (\<open>render\<close> below).
\<close>

subsection \<open>pandas primitives\<close>

text \<open>\<open>Series.sum()\<close>: adds the cells from zero and skips the missing ones.\<close>

definition pd_sum :: "num list \<Rightarrow> rat" where
  "pd_sum vs = fold (\<lambda>v acc. case v of None \<Rightarrow> acc | Some x \<Rightarrow> acc + x) vs 0"

text \<open>The keys of \<open>groupby\<close>: each distinct key once, in ascending order.\<close>

definition group_keys :: "int list \<Rightarrow> int list" where
  "group_keys ks = sort (remdups ks)"

text \<open>\<open>Series.cumsum()\<close> on a column without missing cells: the running total.\<close>

fun cumsum_from :: "rat \<Rightarrow> rat list \<Rightarrow> rat list" where
  "cumsum_from acc [] = []"
| "cumsum_from acc (x # xs) = (acc + x) # cumsum_from (acc + x) xs"

definition cumsum :: "rat list \<Rightarrow> rat list" where
  "cumsum xs = cumsum_from 0 xs"

text \<open>\<open>fillna(0)\<close> on one cell.\<close>

definition fillna0 :: "num \<Rightarrow> rat" where
  "fillna0 v = (case v of None \<Rightarrow> 0 | Some x \<Rightarrow> x)"

text \<open>
  \<open>pd.merge(left, right, on='date', how='outer')\<close>: the keys of both frames in ascending
  order; under each key the left rows paired with the right rows of that key, and a side
  with no row of the key gives missing cells.
\<close>

definition merge_outer ::
  "(int \<times> rat \<times> rat) list \<Rightarrow> (int \<times> rat) list \<Rightarrow> (int \<times> num \<times> num \<times> num) list" where
  "merge_outer left right =
     concat (map (\<lambda>k.
        let ls = filter (\<lambda>l. fst l = k) left;
            rs = filter (\<lambda>r. fst r = k) right
        in if rs = [] then map (\<lambda>(d, c, f). (k, Some c, Some f, None)) ls
           else if ls = [] then map (\<lambda>(d, u). (k, None, None, Some u)) rs
           else concat (map (\<lambda>(d, c, f). map (\<lambda>(d', u). (k, Some c, Some f, Some u)) rs) ls))
       (group_keys (map fst left @ map fst right)))"

subsection \<open>Metrics\<close>

definition closed_trades :: "fill list \<Rightarrow> fill list" where
  "closed_trades df_fills = filter (\<lambda>f. closedPnl f \<noteq> Some 0) df_fills"

definition wins :: "fill list \<Rightarrow> fill list" where
  "wins trades = filter (\<lambda>f. case closedPnl f of None \<Rightarrow> False | Some x \<Rightarrow> x > 0) trades"

definition summarize :: "fill list \<Rightarrow> funding list \<Rightarrow> metrics" where
  "summarize df_fills df_funding =
     (let total_closed_pnl = pd_sum (map closedPnl df_fills);
          total_trading_fees = pd_sum (map fee df_fills);
          total_funding = (if df_funding \<noteq> [] then pd_sum (map usdc df_funding) else 0);
          net_pnl = total_closed_pnl - total_trading_fees + total_funding;
          closed = closed_trades df_fills;
          win_rate = (if length closed > 0
                      then (of_nat (length (wins closed)) / of_nat (length closed)) * 100
                      else 0)
      in \<lparr> total_closed_pnl = total_closed_pnl, net_pnl = net_pnl, win_rate = win_rate,
           total_trading_fees = total_trading_fees, total_funding = total_funding \<rparr>)"

subsection \<open>Chart data\<close>

definition daily_fills :: "fill list \<Rightarrow> (int \<times> rat \<times> rat) list" where
  "daily_fills df_fills =
     map (\<lambda>d. let g = filter (\<lambda>f. date f = d) df_fills
               in (d, pd_sum (map closedPnl g), pd_sum (map fee g)))
         (group_keys (map date df_fills))"

definition daily_funding :: "funding list \<Rightarrow> (int \<times> rat) list" where
  "daily_funding df_funding =
     map (\<lambda>d. (d, pd_sum (map usdc (filter (\<lambda>g. fdate g = d) df_funding))))
         (group_keys (map fdate df_funding))"

text \<open>The joined frame after \<open>fillna(0)\<close>, or the fills frame with a zero column.\<close>

definition joined :: "fill list \<Rightarrow> funding list \<Rightarrow> (int \<times> rat \<times> rat \<times> rat) list" where
  "joined df_fills df_funding =
     (if df_funding \<noteq> []
      then map (\<lambda>(d, c, f, u). (d, fillna0 c, fillna0 f, fillna0 u))
               (merge_outer (daily_fills df_fills) (daily_funding df_funding))
      else map (\<lambda>(d, c, f). (d, c, f, 0)) (daily_fills df_fills))"

definition with_daily_net :: "(int \<times> rat \<times> rat \<times> rat) \<Rightarrow> int \<times> rat \<times> rat \<times> rat \<times> rat" where
  "with_daily_net row = (case row of (d, c, f, u) \<Rightarrow> (d, c, f, u, c - f + u))"

definition mk_daily :: "(int \<times> rat \<times> rat \<times> rat \<times> rat) \<Rightarrow> rat \<Rightarrow> daily" where
  "mk_daily row cum = (case row of (d, c, f, u, n) \<Rightarrow>
     \<lparr> d_date = d, d_closedPnl = c, d_fee = f, d_usdc = u,
       daily_net_pnl = n, cumulative_pnl = cum \<rparr>)"

definition daily_combined :: "fill list \<Rightarrow> funding list \<Rightarrow> daily list" where
  "daily_combined df_fills df_funding =
     (let netted = map with_daily_net (joined df_fills df_funding);
          sorted_rows = sort_key fst netted
      in map2 mk_daily sorted_rows (cumsum (map (\<lambda>(d, c, f, u, n). n) sorted_rows)))"

subsection \<open>The page\<close>

text \<open>
  What one load shows: the error message of the fetch, if any, and either the metrics with
  the daily frame or the warning that no data was found.
\<close>

datatype view = Dashboard metrics "daily list" | No_data_found

definition render ::
  "('v \<Rightarrow> num) \<Rightarrow> 'v raw_fill list option \<Rightarrow> 'v raw_funding list option \<Rightarrow> view" where
  "render to_numeric raw_fills raw_funding =
     (if truthy raw_fills
      then (case process_data to_numeric raw_fills raw_funding of
              (df_fills, df_funding) \<Rightarrow>
                Dashboard (summarize df_fills df_funding) (daily_combined df_fills df_funding))
      else No_data_found)"

text \<open>The rows of the daily frame that a view holds; the warning holds none.\<close>

definition shown_daily :: "view \<Rightarrow> daily list" where
  "shown_daily v = (case v of Dashboard m rows \<Rightarrow> rows | No_data_found \<Rightarrow> [])"

definition load ::
  "('v \<Rightarrow> num) \<Rightarrow> 'v raw_fill list response \<Rightarrow> 'v raw_funding list response
     \<Rightarrow> fetch_error option \<times> view" where
  "load to_numeric r_fills r_funding =
     (case fetch_hyperliquid_data r_fills r_funding of
        ((raw_fills, raw_funding), err) \<Rightarrow> (err, render to_numeric raw_fills raw_funding))"

subsection \<open>Predicates and inputs used in the statements\<close>

text \<open>A call fails when it raises or answers with a status other than 200.\<close>

definition failed :: "'a response \<Rightarrow> bool" where
  "failed r = (case r of Transport_exception \<Rightarrow> True | Response s b \<Rightarrow> s \<noteq> 200)"

text \<open>
  A coercion for the examples: the cells listed parse to the number beside them, every
  other cell fails to parse.
\<close>

definition example_to_numeric :: "string \<Rightarrow> num" where
  "example_to_numeric =
     map_of [(''100'', 100), (''-50'', -50), (''10'', 10), (''-5'', -5),
             (''5'', 5), (''1'', 1), (''0'', 0)]"

definition example_fill :: "int \<Rightarrow> string \<Rightarrow> string \<Rightarrow> string raw_fill" where
  "example_fill t pnl fe =
     \<lparr> raw_time = t, raw_coin = ''BTC'', raw_dir = ''Close Long'', raw_px = ''100'',
       raw_sz = ''1'', raw_closedPnl = pnl, raw_fee = fe, raw_startPosition = ''1'' \<rparr>"

definition example_funding :: "int \<Rightarrow> string \<Rightarrow> string raw_funding" where
  "example_funding t amount = \<lparr> raw_ftime = t, raw_fcoin = ''BTC'', raw_usdc = amount \<rparr>"

text \<open>Midnight of 2024-01-01 and of 2024-01-02 (UTC), in milliseconds.\<close>

definition day1_ms :: int where
  "day1_ms = 1704067200000"

definition day2_ms :: int where
  "day2_ms = 1704153600000"

text \<open>
  The sums of one calendar date, the sorted dates of both frames, and the row of a date:
  the closed form of the daily frame that the lemmas below establish.
\<close>

definition closedPnl_on :: "fill list \<Rightarrow> int \<Rightarrow> rat" where
  "closedPnl_on F d = pd_sum (map closedPnl (filter (\<lambda>f. date f = d) F))"

definition fee_on :: "fill list \<Rightarrow> int \<Rightarrow> rat" where
  "fee_on F d = pd_sum (map fee (filter (\<lambda>f. date f = d) F))"

definition usdc_on :: "funding list \<Rightarrow> int \<Rightarrow> rat" where
  "usdc_on G d = pd_sum (map usdc (filter (\<lambda>g. fdate g = d) G))"

definition day_row :: "fill list \<Rightarrow> funding list \<Rightarrow> int \<Rightarrow> int \<times> rat \<times> rat \<times> rat \<times> rat" where
  "day_row F G k = (k, closedPnl_on F k, fee_on F k, usdc_on G k,
                    closedPnl_on F k - fee_on F k + usdc_on G k)"

definition day_keys :: "fill list \<Rightarrow> funding list \<Rightarrow> int list" where
  "day_keys F G = group_keys (map date F @ map fdate G)"

definition day_net :: "fill list \<Rightarrow> funding list \<Rightarrow> int \<Rightarrow> rat" where
  "day_net F G k = closedPnl_on F k - fee_on F k + usdc_on G k"

section \<open>The calculations in float64\<close>





















section \<open>Properties\<close>

subsection \<open>The fetch is all or nothing\<close>

text \<open>
  Claim C8. If either of the two calls raises or answers with a status other than 200, the
  fetch returns no data for both streams and sends an error message; whatever the other
  call returned is dropped, and the page shows the no-data warning instead of a chart.
\<close>

theorem fetch_all_or_nothing:
  assumes "failed r_fills \<or> failed r_funding"
  shows "fst (fetch_hyperliquid_data r_fills r_funding) = (None, None)
       \<and> snd (fetch_hyperliquid_data r_fills r_funding) \<noteq> None
       \<and> snd (load to_numeric r_fills r_funding) = No_data_found"
  using assms
  by (auto simp: failed_def fetch_hyperliquid_data_def load_def render_def truthy_def
           split: response.splits option.splits)

text \<open>Scenario D: the fills call succeeds with one fill, the funding call answers 500.\<close>

theorem fetch_all_or_nothing_witness:
  "failed (Response 500 (Some [example_funding day1_ms ''5'']))
   \<and> fst (fetch_hyperliquid_data
            (Response 200 (Some [example_fill day1_ms ''100'' ''1'']))
            (Response 500 (Some [example_funding day1_ms ''5'']))) = (None, None)
   \<and> snd (load example_to_numeric
            (Response 200 (Some [example_fill day1_ms ''100'' ''1'']))
            (Response 500 (Some [example_funding day1_ms ''5'']))) = No_data_found"
proof -
  have h: "failed (Response 500 (Some [example_funding day1_ms ''5'']))"
    by (simp add: failed_def)
  then have "failed (Response 200 (Some [example_fill day1_ms ''100'' ''1'']))
           \<or> failed (Response 500 (Some [example_funding day1_ms ''5'']))"
    by simp
  from fetch_all_or_nothing [OF this] h show ?thesis
    by blast
qed

subsection \<open>The normalizer\<close>

text \<open>
  Claim C6. When the raw fills are empty or absent, \<open>process_data\<close> returns two empty
  sequences whatever the raw funding holds, and the page holds no daily row: it shows the
  no-data warning.
\<close>

theorem process_data_no_fills:
  assumes "fills = None \<or> fills = Some []"
  shows "process_data to_numeric fills funding = ([], [])
       \<and> render to_numeric fills funding = No_data_found
       \<and> shown_daily (render to_numeric fills funding) = []"
  using assms by (auto simp: process_data_def render_def truthy_def shown_daily_def)

text \<open>Scenario B: no fills, one funding payment.\<close>

theorem process_data_no_fills_witness:
  "process_data example_to_numeric (Some []) (Some [example_funding day1_ms ''5'']) = ([], [])
   \<and> shown_daily (render example_to_numeric (Some [])
        (Some [example_funding day1_ms ''5''])) = []"
  using process_data_no_fills [of "Some []" example_to_numeric
      "Some [example_funding day1_ms ''5'']"]
  by blast

lemma pd_sum_fold:
  "fold (\<lambda>v acc. case v of None \<Rightarrow> acc | Some x \<Rightarrow> acc + x) vs a
     = a + sum_list (map fillna0 vs)"
  by (induction vs arbitrary: a) (auto simp: fillna0_def split: option.splits)

lemma pd_sum_sum_list: "pd_sum vs = sum_list (map fillna0 vs)"
  by (simp add: pd_sum_def pd_sum_fold)

text \<open>
  Claim C7. A cell of \<open>closedPnl\<close>, \<open>fee\<close> or \<open>usdc\<close> that fails to parse does not stop the
  normalizer: the frame comes back with every row, the row of the bad cell differs from
  what it would have been only in that one column, which is missing, and a column sum
  skips the missing cell, which is the sum with a zero in its place.
\<close>

theorem coercion_failure_absorbed:
  assumes "to_numeric v = None"
  shows "fst (process_data to_numeric (Some (xs @ r\<lparr>raw_closedPnl := v\<rparr> # ys)) funding)
           = map (normalize_fill to_numeric) xs
             @ (normalize_fill to_numeric r)\<lparr>closedPnl := None\<rparr>
             # map (normalize_fill to_numeric) ys
       \<and> fst (process_data to_numeric (Some (xs @ r\<lparr>raw_fee := v\<rparr> # ys)) funding)
           = map (normalize_fill to_numeric) xs
             @ (normalize_fill to_numeric r)\<lparr>fee := None\<rparr>
             # map (normalize_fill to_numeric) ys
       \<and> snd (process_data to_numeric (Some (r # xs)) (Some (gs @ g\<lparr>raw_usdc := v\<rparr> # hs)))
           = map (normalize_funding to_numeric) gs
             @ (normalize_funding to_numeric g)\<lparr>usdc := None\<rparr>
             # map (normalize_funding to_numeric) hs
       \<and> pd_sum (vs @ to_numeric v # ws) = pd_sum (vs @ ws)
       \<and> pd_sum (vs @ to_numeric v # ws) = sum_list (map fillna0 (vs @ Some 0 # ws))"
proof -
  have 1: "normalize_fill to_numeric (r\<lparr>raw_closedPnl := v\<rparr>)
             = (normalize_fill to_numeric r)\<lparr>closedPnl := None\<rparr>"
    using assms by (simp add: normalize_fill_def)
  have 2: "normalize_fill to_numeric (r\<lparr>raw_fee := v\<rparr>)
             = (normalize_fill to_numeric r)\<lparr>fee := None\<rparr>"
    using assms by (simp add: normalize_fill_def)
  have 3: "normalize_funding to_numeric (g\<lparr>raw_usdc := v\<rparr>)
             = (normalize_funding to_numeric g)\<lparr>usdc := None\<rparr>"
    using assms by (simp add: normalize_funding_def)
  have 4: "pd_sum (vs @ to_numeric v # ws) = pd_sum (vs @ ws)"
    using assms by (simp add: pd_sum_sum_list fillna0_def)
  have 5: "pd_sum (vs @ to_numeric v # ws) = sum_list (map fillna0 (vs @ Some 0 # ws))"
    using assms by (simp add: pd_sum_sum_list fillna0_def)
  have 6: "fst (process_data to_numeric (Some (xs @ r' # ys)) funding)
             = map (normalize_fill to_numeric) xs @ normalize_fill to_numeric r'
               # map (normalize_fill to_numeric) ys" for r'
    by (simp add: process_data_def truthy_def rows_of_def)
  have 7: "snd (process_data to_numeric (Some (r # xs)) (Some (gs @ g' # hs)))
             = map (normalize_funding to_numeric) gs @ normalize_funding to_numeric g'
               # map (normalize_funding to_numeric) hs" for g'
    by (simp add: process_data_def truthy_def rows_of_def)
  show ?thesis
    unfolding 6 7 1 2 3 using 4 5 by blast
qed

text \<open>A fill whose \<open>closedPnl\<close> cell is the text \<open>n/a\<close>, after a fill that parses.\<close>

theorem coercion_failure_absorbed_witness:
  "example_to_numeric ''n/a'' = None
   \<and> fst (process_data example_to_numeric
        (Some [example_fill day1_ms ''100'' ''1'', example_fill day2_ms ''n/a'' ''1'']) None)
       = [normalize_fill example_to_numeric (example_fill day1_ms ''100'' ''1''),
          (normalize_fill example_to_numeric (example_fill day2_ms ''-50'' ''1''))
             \<lparr>closedPnl := None\<rparr>]
   \<and> pd_sum [Some 100, example_to_numeric ''n/a''] = 100"
proof -
  have h: "example_to_numeric ''n/a'' = None"
    by (simp add: example_to_numeric_def)
  have e: "(example_fill day2_ms ''-50'' ''1'')\<lparr>raw_closedPnl := ''n/a''\<rparr>
             = example_fill day2_ms ''n/a'' ''1''"
    by (simp add: example_fill_def)
  have s: "pd_sum [Some 100] = 100"
    by (simp add: pd_sum_def)
  from coercion_failure_absorbed [where to_numeric = example_to_numeric and v = "''n/a''"
      and xs = "[example_fill day1_ms ''100'' ''1'']"
      and r = "example_fill day2_ms ''-50'' ''1''" and ys = "[]" and funding = None
      and vs = "[Some 100]" and ws = "[]", OF h] h e s
  show ?thesis
    by simp
qed

subsection \<open>The metrics\<close>

lemma wins_closed_trades:
  "wins (closed_trades F) = wins F"
  by (auto simp: wins_def closed_trades_def intro!: filter_cong split: option.splits)

lemma summarize_win_rate:
  "win_rate (summarize F G) =
     (if closed_trades F = [] then 0
      else of_nat (length (wins F)) / of_nat (length (closed_trades F)) * 100)"
  by (simp add: summarize_def Let_def wins_closed_trades)

lemma length_wins_le: "length (wins F) \<le> length (closed_trades F)"
proof -
  have "length (wins (closed_trades F)) \<le> length (closed_trades F)"
    unfolding wins_def by (rule length_filter_le)
  then show ?thesis by (simp add: wins_closed_trades)
qed

lemma win_rate_add_row_le:
  fixes w n :: nat
  shows "(of_nat w :: rat) / of_nat (Suc n) * 100
           \<le> (if n = 0 then 0 else of_nat w / of_nat n * 100) \<or> n = 0"
proof (cases "n = 0")
  case True
  then show ?thesis by simp
next
  case False
  then have "(of_nat w :: rat) / of_nat (Suc n) \<le> of_nat w / of_nat n"
    by (intro divide_left_mono) auto
  then have "(of_nat w :: rat) / of_nat (Suc n) * 100 \<le> of_nat w / of_nat n * 100"
    by (rule mult_right_mono) simp
  with False show ?thesis by (simp only: if_False simp_thms)
qed

lemma win_rate_add_row_less:
  fixes w n :: nat
  assumes "0 < w" and "0 < n"
  shows "(of_nat w :: rat) / of_nat (Suc n) * 100 < of_nat w / of_nat n * 100"
proof -
  have "(of_nat w :: rat) / of_nat (Suc n) < of_nat w / of_nat n"
    using assms by (intro divide_strict_left_mono) auto
  then show ?thesis
    by (rule mult_strict_right_mono) simp
qed

text \<open>
  Claim C4. The win rate is 100 times the number of fills with \<open>closedPnl > 0\<close> over the
  number of fills that pass the test \<open>closedPnl != 0\<close>, and 0 when no fill passes it. Where
  every \<open>closedPnl\<close> is present, the fills that pass the test are those whose value is not
  zero. When no fill has a value other than zero, the win rate is 0.
\<close>

theorem win_rate_formula:
  "win_rate (summarize F G) =
     (if length (filter (\<lambda>f. closedPnl f \<noteq> Some 0) F) = 0 then 0
      else 100 * of_nat (length (filter (\<lambda>f. \<exists>x. closedPnl f = Some x \<and> x > 0) F))
               / of_nat (length (filter (\<lambda>f. closedPnl f \<noteq> Some 0) F)))
   \<and> ((\<forall>f \<in> set F. closedPnl f \<noteq> None) \<longrightarrow>
        filter (\<lambda>f. closedPnl f \<noteq> Some 0) F
          = filter (\<lambda>f. \<exists>x. closedPnl f = Some x \<and> x \<noteq> 0) F)
   \<and> ((\<forall>f \<in> set F. closedPnl f = Some 0 \<or> closedPnl f = None) \<longrightarrow>
        win_rate (summarize F G) = 0)"
proof -
  have w: "wins F = filter (\<lambda>f. \<exists>x. closedPnl f = Some x \<and> x > 0) F"
    by (auto simp: wins_def intro!: filter_cong split: option.splits)
  have 1: "win_rate (summarize F G) =
     (if length (filter (\<lambda>f. closedPnl f \<noteq> Some 0) F) = 0 then 0
      else 100 * of_nat (length (filter (\<lambda>f. \<exists>x. closedPnl f = Some x \<and> x > 0) F))
               / of_nat (length (filter (\<lambda>f. closedPnl f \<noteq> Some 0) F)))"
    unfolding summarize_win_rate w [symmetric] by (simp add: closed_trades_def)
  have 2: "(\<forall>f \<in> set F. closedPnl f \<noteq> None) \<longrightarrow>
        filter (\<lambda>f. closedPnl f \<noteq> Some 0) F
          = filter (\<lambda>f. \<exists>x. closedPnl f = Some x \<and> x \<noteq> 0) F"
    by (auto intro!: filter_cong)
  have 3: "(\<forall>f \<in> set F. closedPnl f = Some 0 \<or> closedPnl f = None) \<longrightarrow>
        win_rate (summarize F G) = 0"
  proof
    assume a: "\<forall>f \<in> set F. closedPnl f = Some 0 \<or> closedPnl f = None"
    then have "wins F = []"
      by (auto simp: wins_def filter_empty_conv split: option.splits)
    then show "win_rate (summarize F G) = 0"
      by (simp add: summarize_win_rate)
  qed
  from 1 2 3 show ?thesis by blast
qed

text \<open>
  Scenario C: fills with \<open>closedPnl\<close> 0, 10 and -5 give 50; a fill with 0 and a fill with
  an unparseable cell give 0.
\<close>

theorem win_rate_formula_witness:
  "map closedPnl (map (normalize_fill example_to_numeric)
        [example_fill day1_ms ''0'' ''1'', example_fill day1_ms ''10'' ''1'',
         example_fill day2_ms ''-5'' ''1'']) = [Some 0, Some 10, Some (- 5)]
   \<and> win_rate (summarize (map (normalize_fill example_to_numeric)
        [example_fill day1_ms ''0'' ''1'', example_fill day1_ms ''10'' ''1'',
         example_fill day2_ms ''-5'' ''1'']) []) = 50
   \<and> map closedPnl (map (normalize_fill example_to_numeric)
        [example_fill day1_ms ''0'' ''1'', example_fill day1_ms ''n/a'' ''1''])
       = [Some 0, None]
   \<and> win_rate (summarize (map (normalize_fill example_to_numeric)
        [example_fill day1_ms ''0'' ''1'', example_fill day1_ms ''n/a'' ''1'']) []) = 0"
  using win_rate_formula [of "map (normalize_fill example_to_numeric)
        [example_fill day1_ms ''0'' ''1'', example_fill day1_ms ''10'' ''1'',
         example_fill day2_ms ''-5'' ''1'']" "[]"]
    win_rate_formula [of "map (normalize_fill example_to_numeric)
        [example_fill day1_ms ''0'' ''1'', example_fill day1_ms ''n/a'' ''1'']" "[]"]
  by (simp add: normalize_fill_def example_fill_def example_to_numeric_def)

text \<open>
  Claim C5. The net PnL is the total closed PnL minus the total fees plus the total
  funding, where each total is the sum of its column with missing cells counted as zero;
  the total funding is 0 for an empty funding sequence, and every term is 0 when both
  sequences are empty.
\<close>

theorem net_pnl_identity:
  "net_pnl (summarize F G)
     = total_closed_pnl (summarize F G) - total_trading_fees (summarize F G)
       + total_funding (summarize F G)
   \<and> total_closed_pnl (summarize F G) = sum_list (map (\<lambda>f. fillna0 (closedPnl f)) F)
   \<and> total_trading_fees (summarize F G) = sum_list (map (\<lambda>f. fillna0 (fee f)) F)
   \<and> total_funding (summarize F G) = sum_list (map (\<lambda>g. fillna0 (usdc g)) G)
   \<and> total_funding (summarize F []) = 0
   \<and> net_pnl (summarize [] []) = 0"
  by (simp add: summarize_def Let_def pd_sum_sum_list comp_def)

text \<open>The fills and the funding payment of Scenario A: 100 - 1 - 50 - 1 + 5 = 53.\<close>

theorem net_pnl_identity_witness:
  "net_pnl (summarize
      (map (normalize_fill example_to_numeric)
        [example_fill day1_ms ''100'' ''1'', example_fill day2_ms ''-50'' ''1''])
      (map (normalize_funding example_to_numeric) [example_funding day1_ms ''5''])) = 53"
  using net_pnl_identity [of
      "map (normalize_fill example_to_numeric)
        [example_fill day1_ms ''100'' ''1'', example_fill day2_ms ''-50'' ''1'']"
      "map (normalize_funding example_to_numeric) [example_funding day1_ms ''5'']"]
  by (simp add: normalize_fill_def normalize_funding_def example_fill_def
      example_funding_def example_to_numeric_def fillna0_def)

text \<open>
  Claim C10. A fill whose \<open>closedPnl\<close> cell failed to parse passes the test
  \<open>closedPnl != 0\<close>, so it is one of the closed trades, and it is not a win: the number of
  wins is what it is without the fill. The win rate with the fill is therefore never
  above the win rate without it, and it is strictly below as soon as there is a win.
\<close>

theorem missing_closedPnl_in_denominator:
  assumes "to_numeric (raw_closedPnl r) = None"
  shows "closed_trades (xs @ normalize_fill to_numeric r # ys)
           = closed_trades xs @ normalize_fill to_numeric r # closed_trades ys
       \<and> wins (closed_trades (xs @ normalize_fill to_numeric r # ys))
           = wins (closed_trades (xs @ ys))
       \<and> win_rate (summarize (xs @ normalize_fill to_numeric r # ys) G)
           \<le> win_rate (summarize (xs @ ys) G)
       \<and> (wins (xs @ ys) \<noteq> [] \<longrightarrow>
            win_rate (summarize (xs @ normalize_fill to_numeric r # ys) G)
              < win_rate (summarize (xs @ ys) G))"
proof -
  let ?f = "normalize_fill to_numeric r"
  have none: "closedPnl ?f = None"
    using assms by (simp add: normalize_fill_def)
  have c: "closed_trades (xs @ ?f # ys) = closed_trades xs @ ?f # closed_trades ys"
    using none by (simp add: closed_trades_def)
  have w': "wins (xs @ ?f # ys) = wins (xs @ ys)"
    using none by (simp add: wins_def)
  then have w: "wins (closed_trades (xs @ ?f # ys)) = wins (closed_trades (xs @ ys))"
    by (simp add: wins_closed_trades)
  have len: "length (closed_trades (xs @ ?f # ys)) = Suc (length (closed_trades (xs @ ys)))"
    using c by (simp add: closed_trades_def)
  have ne: "closed_trades (xs @ ?f # ys) \<noteq> []"
    using c by simp
  have rate: "win_rate (summarize (xs @ ?f # ys) G)
      = of_nat (length (wins (xs @ ys))) / of_nat (Suc (length (closed_trades (xs @ ys)))) * 100"
    by (simp only: summarize_win_rate w' len ne if_False)
  have le: "win_rate (summarize (xs @ ?f # ys) G) \<le> win_rate (summarize (xs @ ys) G)"
  proof (cases "closed_trades (xs @ ys) = []")
    case True
    with length_wins_le [of "xs @ ys"] have "wins (xs @ ys) = []" by simp
    with True show ?thesis unfolding rate by (simp add: summarize_win_rate)
  next
    case False
    with win_rate_add_row_le [of "length (wins (xs @ ys))" "length (closed_trades (xs @ ys))"]
    show ?thesis
      by (simp only: rate summarize_win_rate [of "xs @ ys"] length_0_conv if_False simp_thms)
  qed
  have lt: "wins (xs @ ys) \<noteq> [] \<longrightarrow>
      win_rate (summarize (xs @ ?f # ys) G) < win_rate (summarize (xs @ ys) G)"
  proof
    assume ne: "wins (xs @ ys) \<noteq> []"
    then have pos: "0 < length (wins (xs @ ys))" by simp
    with length_wins_le [of "xs @ ys"] have n: "closed_trades (xs @ ys) \<noteq> []" by auto
    then have "0 < length (closed_trades (xs @ ys))" by simp
    from win_rate_add_row_less [OF pos this] n
    show "win_rate (summarize (xs @ ?f # ys) G) < win_rate (summarize (xs @ ys) G)"
      by (simp only: rate summarize_win_rate [of "xs @ ys"] if_False)
  qed
  from c w le lt show ?thesis by blast
qed

text \<open>One winning fill gives 100; the same fill with an unparseable one gives 50.\<close>

theorem missing_closedPnl_in_denominator_witness:
  "example_to_numeric (raw_closedPnl (example_fill day1_ms ''n/a'' ''1'')) = None
   \<and> wins [normalize_fill example_to_numeric (example_fill day1_ms ''10'' ''1'')] \<noteq> []
   \<and> win_rate (summarize [normalize_fill example_to_numeric (example_fill day1_ms ''10'' ''1''),
                           normalize_fill example_to_numeric (example_fill day1_ms ''n/a'' ''1'')] [])
       = 50
   \<and> win_rate (summarize [normalize_fill example_to_numeric (example_fill day1_ms ''10'' ''1'')] [])
       = 100"
proof -
  have h: "example_to_numeric (raw_closedPnl (example_fill day1_ms ''n/a'' ''1'')) = None"
    by (simp add: example_to_numeric_def example_fill_def)
  have n: "wins [normalize_fill example_to_numeric (example_fill day1_ms ''10'' ''1'')] \<noteq> []"
    by (simp add: wins_def normalize_fill_def example_to_numeric_def example_fill_def)
  have a: "win_rate (summarize [normalize_fill example_to_numeric (example_fill day1_ms ''10'' ''1'')] []) = 100"
    by (simp add: summarize_win_rate wins_def closed_trades_def normalize_fill_def
        example_to_numeric_def example_fill_def)
  have b: "win_rate (summarize [normalize_fill example_to_numeric (example_fill day1_ms ''10'' ''1''),
                           normalize_fill example_to_numeric (example_fill day1_ms ''n/a'' ''1'')] [])
       = 50"
    by (simp add: summarize_win_rate wins_def closed_trades_def normalize_fill_def
        example_to_numeric_def example_fill_def)
  from missing_closedPnl_in_denominator [where to_numeric = example_to_numeric
      and r = "example_fill day1_ms ''n/a'' ''1''"
      and xs = "[normalize_fill example_to_numeric (example_fill day1_ms ''10'' ''1'')]"
      and ys = "[]" and G = "[]", OF h]
    h n a b
  show ?thesis by simp
qed

subsection \<open>The daily frame\<close>

lemma group_keys_props:
  "set (group_keys ks) = set ks" "distinct (group_keys ks)" "sorted (group_keys ks)"
  by (simp_all add: group_keys_def)

lemma filter_key_distinct:
  "distinct (map fst l) \<Longrightarrow>
     filter (\<lambda>x. fst x = k) l = (case map_of l k of None \<Rightarrow> [] | Some v \<Rightarrow> [(k, v)])"
proof (induction l)
  case Nil
  then show ?case by simp
next
  case (Cons a l)
  obtain d v where a: "a = (d, v)" by (cases a)
  show ?case
  proof (cases "d = k")
    case True
    with Cons.prems a have "k \<notin> fst ` set l" by auto
    then have "filter (\<lambda>x. fst x = k) l = []"
      by (auto simp: filter_empty_conv)
    with True a show ?thesis by simp
  next
    case False
    with Cons a show ?thesis by simp
  qed
qed

lemma map_of_keyed:
  "map_of (map (\<lambda>k. (k, f k)) ks) k = (if k \<in> set ks then Some (f k) else None)"
  by (induction ks) auto

lemma daily_fills_keys: "map fst (daily_fills F) = group_keys (map date F)"
  by (simp add: daily_fills_def comp_def Let_def)

lemma daily_funding_keys: "map fst (daily_funding G) = group_keys (map fdate G)"
  by (simp add: daily_funding_def comp_def)

lemma on_absent:
  "d \<notin> date ` set F \<Longrightarrow> closedPnl_on F d = 0"
  "d \<notin> date ` set F \<Longrightarrow> fee_on F d = 0"
  "d \<notin> fdate ` set G \<Longrightarrow> usdc_on G d = 0"
proof -
  have a: "d \<notin> date ` set F \<Longrightarrow> filter (\<lambda>f. date f = d) F = []"
    by (auto simp: filter_empty_conv)
  have b: "d \<notin> fdate ` set G \<Longrightarrow> filter (\<lambda>g. fdate g = d) G = []"
    by (auto simp: filter_empty_conv)
  show "d \<notin> date ` set F \<Longrightarrow> closedPnl_on F d = 0"
    "d \<notin> date ` set F \<Longrightarrow> fee_on F d = 0"
    "d \<notin> fdate ` set G \<Longrightarrow> usdc_on G d = 0"
    by (simp_all add: a b closedPnl_on_def fee_on_def usdc_on_def pd_sum_def)
qed

lemma map_of_daily_fills:
  "map_of (daily_fills F) d =
     (if d \<in> date ` set F then Some (closedPnl_on F d, fee_on F d) else None)"
  unfolding daily_fills_def Let_def closedPnl_on_def [symmetric] fee_on_def [symmetric]
  by (simp add: map_of_keyed group_keys_props)

lemma map_of_daily_funding:
  "map_of (daily_funding G) d = (if d \<in> fdate ` set G then Some (usdc_on G d) else None)"
  unfolding daily_funding_def usdc_on_def [symmetric]
  by (simp add: map_of_keyed group_keys_props)

lemma merge_outer_row:
  assumes k: "k \<in> date ` set F \<union> fdate ` set G"
  shows "(let ls = filter (\<lambda>l. fst l = k) (daily_fills F);
            rs = filter (\<lambda>r. fst r = k) (daily_funding G)
        in if rs = [] then map (\<lambda>(d, c, f). (k, Some c, Some f, None)) ls
           else if ls = [] then map (\<lambda>(d, u). (k, None, None, Some u)) rs
           else concat (map (\<lambda>(d, c, f). map (\<lambda>(d', u). (k, Some c, Some f, Some u)) rs) ls))
     = [(k, if k \<in> date ` set F then Some (closedPnl_on F k) else None,
            if k \<in> date ` set F then Some (fee_on F k) else None,
            if k \<in> fdate ` set G then Some (usdc_on G k) else None)]"
proof -
  have l: "filter (\<lambda>l. fst l = k) (daily_fills F)
      = (if k \<in> date ` set F then [(k, closedPnl_on F k, fee_on F k)] else [])"
    by (simp add: filter_key_distinct daily_fills_keys group_keys_props map_of_daily_fills)
  have r: "filter (\<lambda>r. fst r = k) (daily_funding G)
      = (if k \<in> fdate ` set G then [(k, usdc_on G k)] else [])"
    by (simp add: filter_key_distinct daily_funding_keys group_keys_props map_of_daily_funding)
  show ?thesis
    unfolding l r Let_def using k by auto
qed

lemma concat_map_singleton:
  "(\<And>k. k \<in> set ks \<Longrightarrow> f k = [g k]) \<Longrightarrow> concat (map f ks) = map g ks"
  by (induction ks) auto

lemma merge_outer_daily:
  "merge_outer (daily_fills F) (daily_funding G) =
     map (\<lambda>k. (k, if k \<in> date ` set F then Some (closedPnl_on F k) else None,
                  if k \<in> date ` set F then Some (fee_on F k) else None,
                  if k \<in> fdate ` set G then Some (usdc_on G k) else None))
         (group_keys (map date F @ map fdate G))"
proof -
  have keys: "group_keys (map fst (daily_fills F) @ map fst (daily_funding G))
      = group_keys (map date F @ map fdate G)"
    unfolding daily_fills_keys daily_funding_keys
    by (intro sorted_distinct_set_unique) (simp_all add: group_keys_props)
  show ?thesis
    unfolding merge_outer_def keys
  proof (rule concat_map_singleton)
    fix k
    assume "k \<in> set (group_keys (map date F @ map fdate G))"
    then have "k \<in> date ` set F \<union> fdate ` set G"
      by (simp add: group_keys_props)
    then show "(let ls = filter (\<lambda>l. fst l = k) (daily_fills F);
            rs = filter (\<lambda>r. fst r = k) (daily_funding G)
        in if rs = [] then map (\<lambda>(d, c, f). (k, Some c, Some f, None)) ls
           else if ls = [] then map (\<lambda>(d, u). (k, None, None, Some u)) rs
           else concat (map (\<lambda>(d, c, f). map (\<lambda>(d', u). (k, Some c, Some f, Some u)) rs) ls))
     = [(k, if k \<in> date ` set F then Some (closedPnl_on F k) else None,
            if k \<in> date ` set F then Some (fee_on F k) else None,
            if k \<in> fdate ` set G then Some (usdc_on G k) else None)]"
      by (rule merge_outer_row)
  qed
qed

lemma joined_closed_form:
  "joined F G = map (\<lambda>k. (k, closedPnl_on F k, fee_on F k, usdc_on G k))
                    (group_keys (map date F @ map fdate G))"
proof (cases "G = []")
  case True
  have "usdc_on [] k = 0" for k by (simp add: usdc_on_def pd_sum_def)
  with True show ?thesis
    by (simp add: joined_def daily_fills_def Let_def comp_def closedPnl_on_def fee_on_def)
next
  case False
  have "(case (k, if k \<in> date ` set F then Some (closedPnl_on F k) else None,
                  if k \<in> date ` set F then Some (fee_on F k) else None,
                  if k \<in> fdate ` set G then Some (usdc_on G k) else None)
          of (d, c, f, u) \<Rightarrow> (d, fillna0 c, fillna0 f, fillna0 u))
        = (k, closedPnl_on F k, fee_on F k, usdc_on G k)" for k
    by (simp add: fillna0_def on_absent)
  with False show ?thesis
    by (simp add: joined_def merge_outer_daily comp_def)
qed

lemma length_cumsum_from: "length (cumsum_from a xs) = length xs"
  by (induction xs arbitrary: a) auto

lemma cumsum_from_nth:
  "i < length xs \<Longrightarrow> cumsum_from a xs ! i = a + sum_list (take (Suc i) xs)"
proof (induction xs arbitrary: a i)
  case Nil
  then show ?case by simp
next
  case (Cons x xs)
  then show ?case by (cases i) (auto simp: add.assoc)
qed

lemma sorted_rows_closed_form:
  "sort_key fst (map with_daily_net (joined F G))
     = map (day_row F G) (group_keys (map date F @ map fdate G))"
proof -
  have m: "map with_daily_net (joined F G)
      = map (day_row F G) (group_keys (map date F @ map fdate G))"
    by (simp add: joined_closed_form with_daily_net_def day_row_def comp_def)
  have "map fst (map (day_row F G) (group_keys (map date F @ map fdate G)))
      = group_keys (map date F @ map fdate G)"
    by (simp add: comp_def day_row_def)
  then have "sorted (map fst (map (day_row F G) (group_keys (map date F @ map fdate G))))"
    by (simp only: group_keys_props)
  then show ?thesis
    unfolding m by (rule sort_key_id_if_sorted)
qed

lemma daily_combined_closed_form:
  "daily_combined F G =
     map2 mk_daily (map (day_row F G) (group_keys (map date F @ map fdate G)))
       (cumsum (map (\<lambda>k. closedPnl_on F k - fee_on F k + usdc_on G k)
                    (group_keys (map date F @ map fdate G))))"
  unfolding daily_combined_def Let_def sorted_rows_closed_form
  by (simp add: comp_def day_row_def)

lemma day_keys_props:
  "set (day_keys F G) = date ` set F \<union> fdate ` set G"
  "distinct (day_keys F G)" "sorted (day_keys F G)"
  by (simp_all add: day_keys_def group_keys_props)

lemma daily_combined_zip:
  "daily_combined F G =
     map2 mk_daily (map (day_row F G) (day_keys F G)) (cumsum (map (day_net F G) (day_keys F G)))"
  unfolding daily_combined_closed_form day_keys_def day_net_def ..

lemma length_daily_combined: "length (daily_combined F G) = length (day_keys F G)"
  by (simp add: daily_combined_zip cumsum_def length_cumsum_from)

lemma daily_combined_nth:
  assumes "i < length (day_keys F G)"
  shows "daily_combined F G ! i =
     \<lparr> d_date = day_keys F G ! i,
       d_closedPnl = closedPnl_on F (day_keys F G ! i),
       d_fee = fee_on F (day_keys F G ! i),
       d_usdc = usdc_on G (day_keys F G ! i),
       daily_net_pnl = day_net F G (day_keys F G ! i),
       cumulative_pnl = sum_list (take (Suc i) (map (day_net F G) (day_keys F G))) \<rparr>"
  using assms
  by (simp add: daily_combined_zip cumsum_def length_cumsum_from cumsum_from_nth
      mk_daily_def day_row_def day_net_def)

lemma map_d_date_daily_combined: "map d_date (daily_combined F G) = day_keys F G"
  by (rule nth_equalityI) (simp_all add: length_daily_combined daily_combined_nth)

lemma map_net_daily_combined:
  "map daily_net_pnl (daily_combined F G) = map (day_net F G) (day_keys F G)"
  by (rule nth_equalityI) (simp_all add: length_daily_combined daily_combined_nth)

lemma daily_combined_row:
  assumes "r \<in> set (daily_combined F G)"
  shows "d_date r \<in> date ` set F \<union> fdate ` set G"
    and "d_closedPnl r = closedPnl_on F (d_date r)"
    and "d_fee r = fee_on F (d_date r)"
    and "d_usdc r = usdc_on G (d_date r)"
    and "daily_net_pnl r = d_closedPnl r - d_fee r + d_usdc r"
proof -
  from assms obtain i where i: "i < length (day_keys F G)" and r: "r = daily_combined F G ! i"
    by (auto simp: in_set_conv_nth length_daily_combined)
  from i have "day_keys F G ! i \<in> set (day_keys F G)" by simp
  then show "d_date r \<in> date ` set F \<union> fdate ` set G"
    by (simp add: r daily_combined_nth [OF i] day_keys_props)
  show "d_closedPnl r = closedPnl_on F (d_date r)" "d_fee r = fee_on F (d_date r)"
    "d_usdc r = usdc_on G (d_date r)" "daily_net_pnl r = d_closedPnl r - d_fee r + d_usdc r"
    by (simp_all add: r daily_combined_nth [OF i] day_net_def)
qed

text \<open>
  Claim C1. The daily frame is the joined per-date rows sorted ascending by date; the
  cumulative value of row i is the sum of the daily nets of rows 0 to i in that order; the
  daily net of a row is its closed PnL sum minus its fee sum plus its funding sum, each the
  sum over the events of the row's date with missing cells counted as zero.
\<close>

theorem cumulative_is_prefix_sum:
  "map (\<lambda>r. (d_date r, d_closedPnl r, d_fee r, d_usdc r)) (daily_combined F G)
     = sort_key fst (joined F G)
   \<and> sorted (map d_date (daily_combined F G))
   \<and> (\<forall>i < length (daily_combined F G).
        cumulative_pnl (daily_combined F G ! i)
          = sum_list (map daily_net_pnl (take (Suc i) (daily_combined F G))))
   \<and> (\<forall>r \<in> set (daily_combined F G).
        daily_net_pnl r = d_closedPnl r - d_fee r + d_usdc r
      \<and> d_closedPnl r
          = sum_list (map (\<lambda>f. fillna0 (closedPnl f)) (filter (\<lambda>f. date f = d_date r) F))
      \<and> d_fee r = sum_list (map (\<lambda>f. fillna0 (fee f)) (filter (\<lambda>f. date f = d_date r) F))
      \<and> d_usdc r
          = sum_list (map (\<lambda>g. fillna0 (usdc g)) (filter (\<lambda>g. fdate g = d_date r) G)))"
proof -
  have 1: "map (\<lambda>r. (d_date r, d_closedPnl r, d_fee r, d_usdc r)) (daily_combined F G)
     = sort_key fst (joined F G)"
  proof -
    have "sort_key fst (joined F G)
        = map (\<lambda>k. (k, closedPnl_on F k, fee_on F k, usdc_on G k)) (day_keys F G)"
      unfolding joined_closed_form day_keys_def
      by (rule sort_key_id_if_sorted) (simp add: comp_def group_keys_props)
    moreover have "map (\<lambda>r. (d_date r, d_closedPnl r, d_fee r, d_usdc r)) (daily_combined F G)
        = map (\<lambda>k. (k, closedPnl_on F k, fee_on F k, usdc_on G k)) (day_keys F G)"
      by (rule nth_equalityI) (simp_all add: length_daily_combined daily_combined_nth)
    ultimately show ?thesis by simp
  qed
  have 2: "sorted (map d_date (daily_combined F G))"
    by (simp add: map_d_date_daily_combined day_keys_props)
  have 3: "\<forall>i < length (daily_combined F G).
        cumulative_pnl (daily_combined F G ! i)
          = sum_list (map daily_net_pnl (take (Suc i) (daily_combined F G)))"
    by (simp add: length_daily_combined daily_combined_nth take_map [symmetric]
        map_net_daily_combined)
  have 4: "\<forall>r \<in> set (daily_combined F G).
        daily_net_pnl r = d_closedPnl r - d_fee r + d_usdc r
      \<and> d_closedPnl r
          = sum_list (map (\<lambda>f. fillna0 (closedPnl f)) (filter (\<lambda>f. date f = d_date r) F))
      \<and> d_fee r = sum_list (map (\<lambda>f. fillna0 (fee f)) (filter (\<lambda>f. date f = d_date r) F))
      \<and> d_usdc r
          = sum_list (map (\<lambda>g. fillna0 (usdc g)) (filter (\<lambda>g. fdate g = d_date r) G))"
    using daily_combined_row [of _ F G]
    by (simp add: closedPnl_on_def fee_on_def usdc_on_def pd_sum_sum_list comp_def)
  from 1 2 3 4 show ?thesis by blast
qed

text \<open>Scenario A: day 1 has net 104 and cumulative 104, day 2 has net -51 and cumulative 53.\<close>

theorem cumulative_is_prefix_sum_witness:
  "map (\<lambda>r. (d_date r, daily_net_pnl r, cumulative_pnl r))
     (daily_combined
        (map (normalize_fill example_to_numeric)
          [example_fill day1_ms ''100'' ''1'', example_fill day2_ms ''-50'' ''1''])
        (map (normalize_funding example_to_numeric) [example_funding day1_ms ''5'']))
     = [(19723, 104, 104), (19724, -51, 53)]
   \<and> (1::nat) < length (daily_combined
        (map (normalize_fill example_to_numeric)
          [example_fill day1_ms ''100'' ''1'', example_fill day2_ms ''-50'' ''1''])
        (map (normalize_funding example_to_numeric) [example_funding day1_ms ''5'']))
   \<and> cumulative_pnl (daily_combined
        (map (normalize_fill example_to_numeric)
          [example_fill day1_ms ''100'' ''1'', example_fill day2_ms ''-50'' ''1''])
        (map (normalize_funding example_to_numeric) [example_funding day1_ms ''5'']) ! 1)
       = sum_list (map daily_net_pnl (take 2 (daily_combined
        (map (normalize_fill example_to_numeric)
          [example_fill day1_ms ''100'' ''1'', example_fill day2_ms ''-50'' ''1''])
        (map (normalize_funding example_to_numeric) [example_funding day1_ms ''5'']))))"
proof -
  let ?F = "map (normalize_fill example_to_numeric)
          [example_fill day1_ms ''100'' ''1'', example_fill day2_ms ''-50'' ''1'']"
  let ?G = "map (normalize_funding example_to_numeric) [example_funding day1_ms ''5'']"
  have e: "daily_combined ?F ?G =
      [\<lparr>d_date = 19723, d_closedPnl = 100, d_fee = 1, d_usdc = 5,
        daily_net_pnl = 104, cumulative_pnl = 104\<rparr>,
       \<lparr>d_date = 19724, d_closedPnl = - 50, d_fee = 1, d_usdc = 0,
        daily_net_pnl = - 51, cumulative_pnl = 53\<rparr>]"
    by (simp add: daily_combined_def joined_def merge_outer_def daily_fills_def
        daily_funding_def group_keys_def pd_sum_def fillna0_def with_daily_net_def
        mk_daily_def cumsum_def normalize_fill_def normalize_funding_def example_fill_def
        example_funding_def example_to_numeric_def day1_ms_def day2_ms_def ms_per_day_def)
  have l: "(1::nat) < length (daily_combined ?F ?G)"
    unfolding e by simp
  from cumulative_is_prefix_sum [of ?F ?G] l
  have "cumulative_pnl (daily_combined ?F ?G ! 1)
       = sum_list (map daily_net_pnl (take (Suc 1) (daily_combined ?F ?G)))"
    by blast
  then have "cumulative_pnl (daily_combined ?F ?G ! 1)
       = sum_list (map daily_net_pnl (take 2 (daily_combined ?F ?G)))"
    by (simp only: Suc_1)
  moreover have "map (\<lambda>r. (d_date r, daily_net_pnl r, cumulative_pnl r)) (daily_combined ?F ?G)
     = [(19723, 104, 104), (19724, -51, 53)]"
    unfolding e by simp
  ultimately show ?thesis using l by blast
qed

text \<open>
  Claim C2. The dates of the daily frame are the dates of the fills together with the dates
  of the funding payments, each once.
\<close>

theorem dates_are_union:
  "set (map d_date (daily_combined F G)) = date ` set F \<union> fdate ` set G
   \<and> distinct (map d_date (daily_combined F G))"
  by (simp add: map_d_date_daily_combined day_keys_props)

text \<open>Two fills on two days and a funding payment on the first day: two dates.\<close>

theorem dates_are_union_witness:
  "map d_date (daily_combined
        (map (normalize_fill example_to_numeric)
          [example_fill day1_ms ''100'' ''1'', example_fill day2_ms ''-50'' ''1''])
        (map (normalize_funding example_to_numeric) [example_funding day1_ms ''5'']))
     = [19723, 19724]
   \<and> set (map d_date (daily_combined
        (map (normalize_fill example_to_numeric)
          [example_fill day1_ms ''100'' ''1'', example_fill day2_ms ''-50'' ''1''])
        (map (normalize_funding example_to_numeric) [example_funding day1_ms ''5''])))
     = {19723, 19724}"
proof -
  let ?F = "map (normalize_fill example_to_numeric)
          [example_fill day1_ms ''100'' ''1'', example_fill day2_ms ''-50'' ''1'']"
  let ?G = "map (normalize_funding example_to_numeric) [example_funding day1_ms ''5'']"
  have d: "date ` set ?F \<union> fdate ` set ?G = {19723, 19724}"
    by (simp add: normalize_fill_def normalize_funding_def example_fill_def
        example_funding_def day1_ms_def day2_ms_def ms_per_day_def)
  have s: "sorted (map d_date (daily_combined ?F ?G))"
    by (simp add: map_d_date_daily_combined day_keys_props)
  from dates_are_union [of ?F ?G] d
  have u: "set (map d_date (daily_combined ?F ?G)) = set [19723, 19724]"
    and i: "distinct (map d_date (daily_combined ?F ?G))"
    by simp_all
  have "map d_date (daily_combined ?F ?G) = [19723, 19724]"
    by (rule sorted_distinct_set_unique [OF s i _ _ u]) simp_all
  with u show ?thesis by simp
qed

text \<open>
  Claim C3. In a row whose date no funding payment has, the funding sum is 0; in a row
  whose date no fill has, the closed PnL sum and the fee sum are 0. The outer join leaves
  those cells missing, and \<open>fillna(0)\<close> makes each of them the number 0.
\<close>

theorem zero_fill_join:
  "(\<forall>r \<in> set (daily_combined F G).
      (d_date r \<notin> fdate ` set G \<longrightarrow> d_usdc r = 0)
    \<and> (d_date r \<notin> date ` set F \<longrightarrow> d_closedPnl r = 0 \<and> d_fee r = 0))
   \<and> (\<forall>(d, c, f, u) \<in> set (merge_outer (daily_fills F) (daily_funding G)).
      (d \<notin> fdate ` set G \<longrightarrow> u = None \<and> fillna0 u = 0)
    \<and> (d \<notin> date ` set F \<longrightarrow> c = None \<and> f = None \<and> fillna0 c = 0 \<and> fillna0 f = 0))"
proof -
  have 1: "\<forall>r \<in> set (daily_combined F G).
      (d_date r \<notin> fdate ` set G \<longrightarrow> d_usdc r = 0)
    \<and> (d_date r \<notin> date ` set F \<longrightarrow> d_closedPnl r = 0 \<and> d_fee r = 0)"
    using daily_combined_row(2-4) [of _ F G] by (simp add: on_absent)
  have 2: "\<forall>(d, c, f, u) \<in> set (merge_outer (daily_fills F) (daily_funding G)).
      (d \<notin> fdate ` set G \<longrightarrow> u = None \<and> fillna0 u = 0)
    \<and> (d \<notin> date ` set F \<longrightarrow> c = None \<and> f = None \<and> fillna0 c = 0 \<and> fillna0 f = 0)"
    unfolding merge_outer_daily by (auto simp: fillna0_def)
  from 1 2 show ?thesis by blast
qed

text \<open>One fill on day 1 and one funding payment on day 2.\<close>

theorem zero_fill_join_witness:
  "19723 \<notin> fdate ` set (map (normalize_funding example_to_numeric)
                            [example_funding day2_ms ''5''])
   \<and> 19724 \<notin> date ` set (map (normalize_fill example_to_numeric)
                            [example_fill day1_ms ''100'' ''1''])
   \<and> merge_outer
        (daily_fills (map (normalize_fill example_to_numeric)
           [example_fill day1_ms ''100'' ''1'']))
        (daily_funding (map (normalize_funding example_to_numeric)
           [example_funding day2_ms ''5'']))
       = [(19723, Some 100, Some 1, None), (19724, None, None, Some 5)]
   \<and> map (\<lambda>r. (d_date r, d_closedPnl r, d_fee r, d_usdc r))
        (daily_combined
           (map (normalize_fill example_to_numeric) [example_fill day1_ms ''100'' ''1''])
           (map (normalize_funding example_to_numeric) [example_funding day2_ms ''5'']))
       = [(19723, 100, 1, 0), (19724, 0, 0, 5)]"
proof -
  let ?F = "map (normalize_fill example_to_numeric) [example_fill day1_ms ''100'' ''1'']"
  let ?G = "map (normalize_funding example_to_numeric) [example_funding day2_ms ''5'']"
  have g: "19723 \<notin> fdate ` set ?G" "19724 \<notin> date ` set ?F"
    by (simp_all add: normalize_fill_def normalize_funding_def example_fill_def
        example_funding_def day1_ms_def day2_ms_def ms_per_day_def)
  have m: "merge_outer (daily_fills ?F) (daily_funding ?G)
      = [(19723, Some 100, Some 1, None), (19724, None, None, Some 5)]"
    by (simp add: merge_outer_def daily_fills_def daily_funding_def group_keys_def
        pd_sum_def normalize_fill_def normalize_funding_def example_fill_def
        example_funding_def example_to_numeric_def day1_ms_def day2_ms_def ms_per_day_def)
  have e: "daily_combined ?F ?G =
      [\<lparr>d_date = 19723, d_closedPnl = 100, d_fee = 1, d_usdc = 0,
        daily_net_pnl = 99, cumulative_pnl = 99\<rparr>,
       \<lparr>d_date = 19724, d_closedPnl = 0, d_fee = 0, d_usdc = 5,
        daily_net_pnl = 5, cumulative_pnl = 104\<rparr>]"
    by (simp add: daily_combined_def joined_def merge_outer_def daily_fills_def
        daily_funding_def group_keys_def pd_sum_def fillna0_def with_daily_net_def
        mk_daily_def cumsum_def normalize_fill_def normalize_funding_def example_fill_def
        example_funding_def example_to_numeric_def day1_ms_def day2_ms_def ms_per_day_def)
  from zero_fill_join [of ?F ?G]
  have "\<forall>r \<in> set (daily_combined ?F ?G).
      (d_date r \<notin> fdate ` set ?G \<longrightarrow> d_usdc r = 0)
    \<and> (d_date r \<notin> date ` set ?F \<longrightarrow> d_closedPnl r = 0 \<and> d_fee r = 0)"
    by blast
  moreover have "map (\<lambda>r. (d_date r, d_closedPnl r, d_fee r, d_usdc r)) (daily_combined ?F ?G)
      = [(19723, 100, 1, 0), (19724, 0, 0, 5)]"
    unfolding e by simp
  ultimately show ?thesis
    using g m by blast
qed





subsection \<open>Rounding to float64\<close>








































end
